theory Spec2Isabelle
  imports Complex_Main
begin

section \<open>Strings\<close>

text \<open>
  A JavaScript string is a sequence of UTF-16 code units; a code unit is modelled by
  its number. The whitespace class \<open>\s\<close> of regular expressions and the characters
  removed by \<open>trim()\<close> are the same set: the white space and the line terminator
  code points of ECMAScript.
\<close>

type_synonym jschar = int
type_synonym jsstring = "jschar list"

definition js :: "string \<Rightarrow> jsstring" where
  "js s = map of_char s"

definition NL :: jschar where "NL = 10"
definition CR :: jschar where "CR = 13"
definition TAB :: jschar where "TAB = 9"
definition SPACE :: jschar where "SPACE = 32"
definition HASH :: jschar where "HASH = 35"
definition STAR :: jschar where "STAR = 42"
definition USCORE :: jschar where "USCORE = 95"

definition isSpace :: "jschar \<Rightarrow> bool" where
  "isSpace c \<longleftrightarrow>
     (9 \<le> c \<and> c \<le> 13) \<or> c = 32 \<or> c = 0xA0 \<or> c = 0x1680 \<or>
     (0x2000 \<le> c \<and> c \<le> 0x200A) \<or> c = 0x2028 \<or> c = 0x2029 \<or>
     c = 0x202F \<or> c = 0x205F \<or> c = 0x3000 \<or> c = 0xFEFF"

text \<open>The characters that \<open>.\<close> does not match and after which \<open>^\<close> matches under the
  \<open>m\<close> flag.\<close>

definition isLineTerminator :: "jschar \<Rightarrow> bool" where
  "isLineTerminator c \<longleftrightarrow> c = 10 \<or> c = 13 \<or> c = 0x2028 \<or> c = 0x2029"

definition trimStart :: "jsstring \<Rightarrow> jsstring" where
  "trimStart s = dropWhile isSpace s"

definition trim :: "jsstring \<Rightarrow> jsstring" where
  "trim s = rev (dropWhile isSpace (rev (dropWhile isSpace s)))"

text \<open>\<open>s.split(c)\<close> for a one-character separator: the pieces between the occurrences of
  \<open>c\<close>, empty pieces included.\<close>

fun split_char :: "jschar \<Rightarrow> jsstring \<Rightarrow> jsstring list" where
  "split_char c [] = [[]]"
| "split_char c (x # xs) =
     (if x = c then [] # split_char c xs
      else (case split_char c xs of
              [] \<Rightarrow> [[x]]
            | p # ps \<Rightarrow> (x # p) # ps))"

text \<open>\<open>s.split(/\n\n+/)\<close>: a separator is a maximal run of two or more newlines; a single
  newline stays inside its piece.\<close>

function split_nn :: "jsstring \<Rightarrow> jsstring list" where
  "split_nn [] = [[]]"
| "split_nn [x] = [[x]]"
| "split_nn (x # y # xs) =
     (if x = NL \<and> y = NL then [] # split_nn (dropWhile (\<lambda>c. c = NL) xs)
      else (case split_nn (y # xs) of
              [] \<Rightarrow> [[x]]
            | p # ps \<Rightarrow> (x # p) # ps))"
  by pat_completeness auto
termination
proof (relation "measure length")
  fix x y :: jschar and xs :: jsstring
  have "length (dropWhile (\<lambda>c. c = NL) xs) \<le> length xs"
    by (rule length_dropWhile_le)
  then show "(dropWhile (\<lambda>c. c = NL) xs, x # y # xs) \<in> measure length"
    by simp
qed simp_all

text \<open>\<open>s.replace(/\r\n/g, '\n')\<close> and \<open>s.replace(/\r/g, '\n')\<close>.\<close>

fun replace_crlf :: "jsstring \<Rightarrow> jsstring" where
  "replace_crlf (x # y # xs) =
     (if x = CR \<and> y = NL then NL # replace_crlf xs else x # replace_crlf (y # xs))"
| "replace_crlf xs = xs"

definition replace_cr :: "jsstring \<Rightarrow> jsstring" where
  "replace_cr s = map (\<lambda>c. if c = CR then NL else c) s"

text \<open>\<open>s.replace(/cc/g, '')\<close> for a doubled character (\<open>**\<close>, \<open>__\<close>): the occurrences
  are found from the left and do not overlap.\<close>

fun remove_pairs :: "jschar \<Rightarrow> jsstring \<Rightarrow> jsstring" where
  "remove_pairs c (x # y # xs) =
     (if x = c \<and> y = c then remove_pairs c xs else x # remove_pairs c (y # xs))"
| "remove_pairs c xs = xs"

text \<open>\<open>s.includes(cc)\<close> for a doubled character.\<close>

fun includes_pair :: "jschar \<Rightarrow> jsstring \<Rightarrow> bool" where
  "includes_pair c (x # y # xs) = ((x = c \<and> y = c) \<or> includes_pair c (y # xs))"
| "includes_pair c xs = False"

text \<open>\<open>s.replace(/\s+/g, ' ')\<close>.\<close>

function collapse_ws :: "jsstring \<Rightarrow> jsstring" where
  "collapse_ws [] = []"
| "collapse_ws (x # xs) =
     (if isSpace x then SPACE # collapse_ws (dropWhile isSpace xs)
      else x # collapse_ws xs)"
  by pat_completeness auto
termination
  by (relation "measure length") (auto simp: le_imp_less_Suc length_dropWhile_le)

text \<open>\<open>s.replace(/^#+\s*/gm, '')\<close>. Under the \<open>m\<close> flag \<open>^\<close> matches at the start of the
  string and after a line terminator; the flag \<open>atStart\<close> says whether it matches at the
  current position. A match takes the whole run of \<open>#\<close> and the whole run of white
  space after it, which may end in a line terminator.\<close>

function strip_line_hashes :: "bool \<Rightarrow> jsstring \<Rightarrow> jsstring" where
  "strip_line_hashes atStart [] = []"
| "strip_line_hashes atStart (x # xs) =
     (if atStart \<and> x = HASH then
        (let afterHashes = dropWhile (\<lambda>c. c = HASH) xs;
             ws = takeWhile isSpace afterHashes
         in strip_line_hashes (ws \<noteq> [] \<and> isLineTerminator (last ws))
              (dropWhile isSpace afterHashes))
      else x # strip_line_hashes (isLineTerminator x) xs)"
  by pat_completeness auto
termination
proof (relation "measure (\<lambda>(a, s). length s)")
  fix atStart a :: bool and x :: jschar and xs afterHashes :: jsstring
  assume "afterHashes = dropWhile (\<lambda>c. c = HASH) xs"
  then have "length (dropWhile isSpace afterHashes) \<le> length xs"
    using le_trans [OF length_dropWhile_le length_dropWhile_le] by simp
  then show "((a, dropWhile isSpace afterHashes), atStart, x # xs)
      \<in> measure (\<lambda>(a, s). length s)"
    by simp
qed simp_all

text \<open>The exceptions of the model: a reference to a name that does not exist, and
  \<open>new Error(message)\<close>.\<close>

datatype js_error = ReferenceError | Error jsstring

section \<open>Paragraph segmentation\<close>

text \<open>\<open>generateWhitepaperDOCX\<close> and \<open>generateWhitepaperPPT\<close>, each on its own line of the
  source: \<open>content.split(/\n\n+/).filter(p => p.trim().length > 0)\<close>.\<close>

definition docx_paragraphs :: "jsstring \<Rightarrow> jsstring list" where
  "docx_paragraphs content = filter (\<lambda>p. length (trim p) > 0) (split_nn content)"


text \<open>\<open>line.match(/^#{1,3}\s/)\<close>: one to three \<open>#\<close> and then a white space character.\<close>

definition line_is_heading :: "jsstring \<Rightarrow> bool" where
  "line_is_heading line =
     (let k = length (takeWhile (\<lambda>c. c = HASH) line)
      in 1 \<le> k \<and> k \<le> 3 \<and>
         (case drop k line of [] \<Rightarrow> False | c # _ \<Rightarrow> isSpace c))"

text \<open>The loop over the lines in the PDF generator's second segmentation; the state is
  the list \<open>paragraphs\<close> and the string \<open>currentParagraph\<close>.\<close>

fun group_lines :: "jsstring list \<Rightarrow> jsstring list \<times> jsstring \<Rightarrow> jsstring list \<times> jsstring" where
  "group_lines [] acc = acc"
| "group_lines (l # ls) (paragraphs, currentParagraph) =
     (let line = trim l
      in if line_is_heading line then
           (let (paragraphs, currentParagraph) =
                  (if length (trim currentParagraph) > 0
                   then (paragraphs @ [trim currentParagraph], [])
                   else (paragraphs, currentParagraph))
            in group_lines ls (paragraphs @ [line], currentParagraph))
         else
           group_lines ls
             (paragraphs,
              if length currentParagraph > 0 then currentParagraph @ [SPACE] @ line else line))"

definition regroup_lines :: "jsstring \<Rightarrow> jsstring list" where
  "regroup_lines normalizedContent =
     (let lines = filter (\<lambda>l. length (trim l) > 0) (split_char NL normalizedContent);
          (paragraphs, currentParagraph) = group_lines lines ([], [])
      in if length (trim currentParagraph) > 0
         then paragraphs @ [trim currentParagraph] else paragraphs)"

definition pdf_paragraphs :: "jsstring \<Rightarrow> jsstring list" where
  "pdf_paragraphs content =
     (let normalizedContent = replace_cr (replace_crlf content);
          paragraphs = filter (\<lambda>p. length (trim p) > 0) (split_nn normalizedContent);
          paragraphs = (if length paragraphs < 5 then regroup_lines normalizedContent
                        else paragraphs)
      in if length paragraphs = 0 \<and> length (trim content) > 0 then [trim content]
         else paragraphs)"

section \<open>The PDF generator\<close>

text \<open>
  The calls that \<open>generateWhitepaperPDF\<close> makes on pdf-lib are kept in a log, oldest
  first. A page is named by its position among the pages added to the document;
  \<open>currentPage\<close> of the source is such a position. Lengths are in points; the model
  computes with exact rationals where JavaScript computes with doubles.
\<close>

datatype font = Helvetica | HelveticaBold

record image =
  pageIndex :: nat
  base64 :: jsstring

datatype pdf_call =
    AddPage rat rat
  | DrawText nat jsstring rat rat rat font
  | DrawImage nat image rat rat rat rat

text \<open>
  What the generator needs from pdf-lib: the width of a text in a font at a size, and
  the embedding of image data, which gives the pixel width and height of the image or
  fails (the source catches the failure). That pdf-lib rejects a text its font cannot
  encode is outside this model: \<open>widthOfTextAtSize\<close> is total.
\<close>

record pdf_lib =
  widthOfTextAtSize :: "font \<Rightarrow> jsstring \<Rightarrow> rat \<Rightarrow> rat"
  embedPng :: "jsstring \<Rightarrow> (nat \<times> nat) option"
  embedJpg :: "jsstring \<Rightarrow> (nat \<times> nat) option"

record gen_state =
  calls :: "pdf_call list"
  currentPage :: nat
  yPosition :: rat
  currentPageIndex :: nat
  imagesPlacedOnPage :: "nat set"

named_theorems layout \<open>the constants of the page layout\<close>

definition width :: rat where [layout]: "width = 612"
definition height :: rat where [layout]: "height = 792"
definition margin :: rat where [layout]: "margin = 72"
definition topMargin :: rat where [layout]: "topMargin = 72"
definition bottomMargin :: rat where [layout]: "bottomMargin = 72"
definition fontSize :: rat where [layout]: "fontSize = 12"
definition headingFontSize :: rat where [layout]: "headingFontSize = 18"
definition subHeadingFontSize :: rat where [layout]: "subHeadingFontSize = 16"
definition bodyLineHeight :: rat where [layout]: "bodyLineHeight = fontSize * (15 / 10)"
definition headingLineHeight :: rat where
  [layout]: "headingLineHeight = headingFontSize * (12 / 10)"
definition subHeadingLineHeight :: rat where
  [layout]: "subHeadingLineHeight = subHeadingFontSize * (13 / 10)"
definition paragraphSpacing :: rat where [layout]: "paragraphSpacing = 16"
definition headingTopMargin :: rat where [layout]: "headingTopMargin = 24"
definition headingBottomMargin :: rat where [layout]: "headingBottomMargin = 12"
definition subHeadingTopMargin :: rat where [layout]: "subHeadingTopMargin = 20"
definition subHeadingBottomMargin :: rat where [layout]: "subHeadingBottomMargin = 10"

fun is_AddPage :: "pdf_call \<Rightarrow> bool" where
  "is_AddPage (AddPage w h) = True"
| "is_AddPage c = False"

definition page_count :: "pdf_call list \<Rightarrow> nat" where
  "page_count cs = length (filter is_AddPage cs)"

text \<open>\<open>currentPage = pdfDoc.addPage([612, 792])\<close>.\<close>

definition addPage :: "gen_state \<Rightarrow> gen_state" where
  "addPage st = st\<lparr>calls := calls st @ [AddPage 612 792],
                    currentPage := page_count (calls st)\<rparr>"

text \<open>The three statements that the source repeats at each of its four page breaks:
  add a page, put the cursor below the top margin, count the page.\<close>

definition start_new_page :: "gen_state \<Rightarrow> gen_state" where
  "start_new_page st =
     (let st = addPage st;
          st = st\<lparr>yPosition := height - topMargin\<rparr>
      in st\<lparr>currentPageIndex := currentPageIndex st + 1\<rparr>)"

definition embed_image :: "pdf_lib \<Rightarrow> jsstring \<Rightarrow> (nat \<times> nat) option" where
  "embed_image lib imageBytes =
     (case embedPng lib imageBytes of
        Some img \<Rightarrow> Some img
      | None \<Rightarrow> embedJpg lib imageBytes)"

definition scale_image :: "rat \<times> rat \<Rightarrow> rat \<times> rat" where
  "scale_image dims =
     (let maxImageWidth = width - (margin * 2);
          maxImageHeight = height * (4 / 10);
          (imageWidth, imageHeight) = dims;
          (imageWidth, imageHeight) =
             (if imageWidth > maxImageWidth
              then (let scale = maxImageWidth / imageWidth
                    in (imageWidth * scale, imageHeight * scale))
              else (imageWidth, imageHeight))
      in if imageHeight > maxImageHeight
         then (let scale = maxImageHeight / imageHeight
               in (imageWidth * scale, imageHeight * scale))
         else (imageWidth, imageHeight))"

definition placeImageIfNeeded :: "pdf_lib \<Rightarrow> image list \<Rightarrow> nat \<Rightarrow> gen_state \<Rightarrow> gen_state" where
  "placeImageIfNeeded lib images pageIdx st =
     (if pageIdx \<in> imagesPlacedOnPage st then st
      else case find (\<lambda>img. pageIndex img = pageIdx) images of
        None \<Rightarrow> st
      | Some imageForPage \<Rightarrow>
          (case embed_image lib (base64 imageForPage) of
             None \<Rightarrow> st
           | Some (w, h) \<Rightarrow>
               (let maxImageWidth = width - (margin * 2);
                    (imageWidth, imageHeight) = scale_image (of_nat w, of_nat h);
                    st = (if yPosition st - imageHeight - paragraphSpacing < bottomMargin
                          then start_new_page st else st);
                    st = st\<lparr>calls := calls st @
                           [DrawImage (currentPage st) imageForPage
                              (margin + (maxImageWidth - imageWidth) / 2)
                              (yPosition st - imageHeight) imageWidth imageHeight]\<rparr>;
                    st = st\<lparr>yPosition :=
                           yPosition st - (imageHeight + paragraphSpacing * (15 / 10))\<rparr>
                in st\<lparr>imagesPlacedOnPage := insert pageIdx (imagesPlacedOnPage st)\<rparr>)))"

text \<open>A page break in the text flow: the three statements and then
  \<open>await placeImageIfNeeded(currentPageIndex)\<close>.\<close>

definition break_page :: "pdf_lib \<Rightarrow> image list \<Rightarrow> gen_state \<Rightarrow> gen_state" where
  "break_page lib images st =
     (let st = start_new_page st
      in placeImageIfNeeded lib images (currentPageIndex st) st)"

text \<open>
  \<open>trimmedStart.match(/^(#{1,3})\s+(.+)$/)\<close>, without the \<open>m\<close> flag: one to three \<open>#\<close>, a
  run of white space, and then at least one character up to the end of the string, none
  of them a line terminator. The result is the two groups. The run of white space is
  taken whole; only when nothing follows it does the matcher give its last character
  back to the second group.
\<close>

definition heading_match :: "jsstring \<Rightarrow> (jsstring \<times> jsstring) option" where
  "heading_match s =
     (let hashes = takeWhile (\<lambda>c. c = HASH) s;
          ws = takeWhile isSpace (dropWhile (\<lambda>c. c = HASH) s);
          title = dropWhile isSpace (dropWhile (\<lambda>c. c = HASH) s)
      in if length hashes < 1 \<or> 3 < length hashes \<or> ws = [] then None
         else if title \<noteq> [] then
           (if list_ex isLineTerminator title then None else Some (hashes, title))
         else if 2 \<le> length ws \<and> \<not> isLineTerminator (last ws) then Some (hashes, [last ws])
         else None)"

text \<open>The cleaning of a paragraph, up to the test \<open>if (!textToRender) continue\<close>.\<close>

definition remove_markdown :: "jsstring \<Rightarrow> jsstring" where
  "remove_markdown s =
     map (\<lambda>c. if c = USCORE then SPACE else c)
       (filter (\<lambda>c. c \<noteq> STAR) (remove_pairs USCORE (remove_pairs STAR s)))"

definition cleaned_text :: "jsstring \<Rightarrow> jsstring" where
  "cleaned_text paragraph =
     (let originalParagraph = trim paragraph;
          trimmedStart = trimStart originalParagraph;
          headingMatch = heading_match trimmedStart;
          withoutHashes =
            filter (\<lambda>c. c \<noteq> HASH) (strip_line_hashes True originalParagraph);
          cleanedParagraph =
            (case headingMatch of
               None \<Rightarrow> withoutHashes
             | Some (level, title) \<Rightarrow> if title \<noteq> [] then trim title else withoutHashes);
          cleanedParagraph = remove_markdown cleanedParagraph;
          textToRender = trim cleanedParagraph;
          textToRender = filter (\<lambda>c. c \<noteq> CR)
                           (map (\<lambda>c. if c = NL then SPACE else c) textToRender)
      in trim (collapse_ws textToRender))"

text \<open>The validation after it: where a \<open>#\<close>, a \<open>**\<close> or a \<open>__\<close> is left, they are removed
  by force.\<close>

definition validated_text :: "jsstring \<Rightarrow> jsstring" where
  "validated_text textToRender =
     (if HASH \<in> set textToRender \<or> includes_pair STAR textToRender
         \<or> includes_pair USCORE textToRender
      then trim (filter (\<lambda>c. c \<noteq> STAR)
             (remove_pairs USCORE (remove_pairs STAR (filter (\<lambda>c. c \<noteq> HASH) textToRender))))
      else textToRender)"

definition clean_line :: "jsstring \<Rightarrow> jsstring" where
  "clean_line s = trim (map (\<lambda>c. if c = CR \<or> c = NL \<or> c = TAB then SPACE else c) s)"

definition drawText :: "jsstring \<Rightarrow> rat \<Rightarrow> font \<Rightarrow> gen_state \<Rightarrow> gen_state" where
  "drawText text textSize fnt st =
     st\<lparr>calls := calls st @ [DrawText (currentPage st) text margin (yPosition st) textSize fnt]\<rparr>"

text \<open>Inside the loop over the words, when the line is full: the line is drawn, the
  cursor moves down by the line height, and a page break follows if the next line
  would not fit.\<close>

definition flush_line :: "pdf_lib \<Rightarrow> image list \<Rightarrow> font \<Rightarrow> rat \<Rightarrow> rat \<Rightarrow> jsstring
    \<Rightarrow> gen_state \<Rightarrow> gen_state" where
  "flush_line lib images fnt textSize lineHeight currentLine st =
     (let cleanLine = clean_line currentLine;
          st = (if cleanLine \<noteq> []
                then (let st = drawText cleanLine textSize fnt st
                      in st\<lparr>yPosition := yPosition st - lineHeight\<rparr>)
                else st)
      in if yPosition st - lineHeight < bottomMargin
         then break_page lib images st else st)"

text \<open>The loop \<open>for (const word of words)\<close>; the state is \<open>currentLine\<close> and the
  generator's state.\<close>

fun word_loop :: "pdf_lib \<Rightarrow> image list \<Rightarrow> font \<Rightarrow> rat \<Rightarrow> rat \<Rightarrow> jsstring list
    \<Rightarrow> jsstring \<times> gen_state \<Rightarrow> jsstring \<times> gen_state" where
  "word_loop lib images fnt textSize lineHeight [] acc = acc"
| "word_loop lib images fnt textSize lineHeight (word # ws) (currentLine, st) =
     (let testLine = (if currentLine \<noteq> [] then currentLine @ [SPACE] @ word else word);
          cleanTestLine = map (\<lambda>c. if c = CR \<or> c = NL \<or> c = TAB then SPACE else c) testLine;
          textWidth = widthOfTextAtSize lib fnt cleanTestLine textSize
      in if textWidth > width - (margin * 2) then
           (if currentLine \<noteq> [] then
              word_loop lib images fnt textSize lineHeight ws
                (word, flush_line lib images fnt textSize lineHeight currentLine st)
            else word_loop lib images fnt textSize lineHeight ws (word, st))
         else word_loop lib images fnt textSize lineHeight ws (testLine, st))"

text \<open>The spacing before a heading that is not the first paragraph.\<close>

definition heading_spacing :: "pdf_lib \<Rightarrow> image list \<Rightarrow> nat \<Rightarrow> bool \<Rightarrow> bool \<Rightarrow> bool
    \<Rightarrow> gen_state \<Rightarrow> gen_state" where
  "heading_spacing lib images i isHeading isSubHeading isSubSubHeading st =
     (if (isHeading \<or> isSubHeading \<or> isSubSubHeading) \<and> i > 0 then
        (let topSpacing = (if isHeading then headingTopMargin
                           else if isSubHeading \<or> isSubSubHeading
                           then subHeadingTopMargin else 0)
         in if yPosition st - topSpacing < bottomMargin + bodyLineHeight
            then break_page lib images st
            else if topSpacing > 0 then st\<lparr>yPosition := yPosition st - topSpacing\<rparr>
            else st)
      else st)"

text \<open>The page break before the content of a paragraph.\<close>

definition ensure_room :: "pdf_lib \<Rightarrow> image list \<Rightarrow> rat \<Rightarrow> gen_state \<Rightarrow> gen_state" where
  "ensure_room lib images requiredLineHeight st =
     (if yPosition st - requiredLineHeight < bottomMargin
      then break_page lib images st else st)"

text \<open>After the loop: the last line and the spacing after the paragraph.\<close>

definition draw_last_line :: "font \<Rightarrow> rat \<Rightarrow> rat \<Rightarrow> rat \<Rightarrow> jsstring \<Rightarrow> gen_state
    \<Rightarrow> gen_state" where
  "draw_last_line fnt textSize lineHeight bottomSpacing currentLine st =
     (if currentLine \<noteq> [] then
        (let cleanLine = clean_line currentLine
         in if cleanLine \<noteq> [] then
              (let st = drawText cleanLine textSize fnt st
               in st\<lparr>yPosition := yPosition st - (lineHeight + bottomSpacing)\<rparr>)
            else st)
      else st)"

definition words_of :: "jsstring \<Rightarrow> jsstring list" where
  "words_of textToRender =
     filter (\<lambda>w. length (trim w) > 0) (split_char SPACE textToRender)"

text \<open>The body of the loop over the paragraphs, from the spacing before a heading to
  the spacing after the paragraph, for a text that passed the test for emptiness.\<close>

definition layout_paragraph :: "pdf_lib \<Rightarrow> image list \<Rightarrow> nat \<Rightarrow> bool \<Rightarrow> bool \<Rightarrow> bool
    \<Rightarrow> jsstring \<Rightarrow> gen_state \<Rightarrow> gen_state" where
  "layout_paragraph lib images i isHeading isSubHeading isSubSubHeading textToRender st =
     (let st = heading_spacing lib images i isHeading isSubHeading isSubSubHeading st;
          requiredLineHeight = (if isHeading then headingLineHeight
                                else if isSubHeading then subHeadingLineHeight
                                else bodyLineHeight);
          st = ensure_room lib images requiredLineHeight st;
          textSize = (if isHeading then headingFontSize
                      else if isSubHeading then subHeadingFontSize
                      else if isSubSubHeading then 14
                      else fontSize);
          lineHeight = (if isHeading then headingLineHeight
                        else if isSubHeading then subHeadingLineHeight
                        else bodyLineHeight);
          fnt = (if isHeading \<or> isSubHeading \<or> isSubSubHeading then HelveticaBold
                 else Helvetica);
          words = words_of textToRender;
          (currentLine, st) = word_loop lib images fnt textSize lineHeight words ([], st);
          bottomSpacing = (if isHeading then headingBottomMargin
                           else if isSubHeading \<or> isSubSubHeading
                           then subHeadingBottomMargin
                           else paragraphSpacing)
      in draw_last_line fnt textSize lineHeight bottomSpacing currentLine st)"

definition process_paragraph :: "pdf_lib \<Rightarrow> image list \<Rightarrow> nat \<Rightarrow> jsstring \<Rightarrow> gen_state
    \<Rightarrow> gen_state" where
  "process_paragraph lib images i paragraph st =
     (let originalParagraph = trim paragraph;
          trimmedStart = trimStart originalParagraph;
          headingMatch = heading_match trimmedStart;
          isHeading = (case headingMatch of None \<Rightarrow> False | Some (l, t) \<Rightarrow> l = [HASH]);
          isSubHeading =
            (case headingMatch of None \<Rightarrow> False | Some (l, t) \<Rightarrow> l = [HASH, HASH]);
          isSubSubHeading =
            (case headingMatch of None \<Rightarrow> False | Some (l, t) \<Rightarrow> l = [HASH, HASH, HASH]);
          textToRender = cleaned_text paragraph
      in if textToRender = [] then st
         else layout_paragraph lib images i isHeading isSubHeading isSubSubHeading
                (validated_text textToRender) st)"

fun paragraph_loop :: "pdf_lib \<Rightarrow> image list \<Rightarrow> nat \<Rightarrow> jsstring list \<Rightarrow> gen_state
    \<Rightarrow> gen_state" where
  "paragraph_loop lib images i [] st = st"
| "paragraph_loop lib images i (paragraph # ps) st =
     paragraph_loop lib images (Suc i) ps (process_paragraph lib images i paragraph st)"

definition initial_state :: gen_state where
  "initial_state =
     \<lparr>calls = [AddPage 612 792], currentPage = 0, yPosition = height - topMargin,
      currentPageIndex = 0, imagesPlacedOnPage = {}\<rparr>"

text \<open>\<open>generateWhitepaperPDF(content, images, numPages)\<close>; the third argument is not
  used by the source. The result is the error thrown or the state at \<open>pdfDoc.save()\<close>.\<close>

definition generateWhitepaperPDF :: "pdf_lib \<Rightarrow> jsstring \<Rightarrow> image list \<Rightarrow> js_error + gen_state" where
  "generateWhitepaperPDF lib content images =
     (if content = [] \<or> length (trim content) = 0
      then Inl (Error (js ''Cannot generate PDF: content is empty''))
      else Inr (paragraph_loop lib images 0 (pdf_paragraphs content) initial_state))"

section \<open>Download history (DownloadsMenu)\<close>

text \<open>
  \<open>interface DownloadedFile\<close>. The argument of \<open>saveFileToDownloads\<close> is
  \<open>Omit<DownloadedFile, 'id' | 'createdAt'>\<close>, the record \<open>FileData\<close>; the stored
  entry extends it by the two omitted fields.
\<close>

datatype fileFormat = Fpdf | Fdocx | Fppt | Ftxt

record FileData =
  filename :: jsstring
  mimeType :: jsstring
  document :: jsstring
  format :: fileFormat
  size_opt :: "nat option"

record DownloadedFile = FileData +
  id_field :: jsstring
  createdAt :: jsstring

text \<open>
  The browser's \<open>localStorage\<close>, restricted to what this module stores: under a key, the
  JSON text of a list of entries, identified with the list it parses to
  (\<open>JSON.parse (JSON.stringify fs) = fs\<close>). The environment is \<open>None\<close> where
  \<open>typeof window === 'undefined'\<close> (rendering on the server): there is no storage there
  and \<open>localStorage.setItem\<close> raises a ReferenceError.
\<close>

type_synonym localStorage = "jsstring \<rightharpoonup> DownloadedFile list"

definition STORAGE_KEY :: jsstring where
  "STORAGE_KEY = js ''geogame_downloaded_files''"

definition getDownloadedFiles :: "localStorage option \<Rightarrow> DownloadedFile list" where
  "getDownloadedFiles w =
     (case w of
        None \<Rightarrow> []
      | Some ls \<Rightarrow> (case ls STORAGE_KEY of None \<Rightarrow> [] | Some fs \<Rightarrow> fs))"

definition setItem :: "jsstring \<Rightarrow> DownloadedFile list \<Rightarrow> localStorage option
    \<Rightarrow> js_error + localStorage option" where
  "setItem k v w =
     (case w of None \<Rightarrow> Inl ReferenceError | Some ls \<Rightarrow> Inr (Some (ls(k \<mapsto> v))))"

text \<open>
  \<open>saveFileToDownloads file\<close>; \<open>now\<close> is \<open>Date.now().toString()\<close> and \<open>stamp\<close> is
  \<open>new Date().toISOString()\<close> at the time of the call. The result is the new entry and
  the storage after the call.
\<close>

definition saveFileToDownloads :: "FileData \<Rightarrow> jsstring \<Rightarrow> jsstring \<Rightarrow> localStorage option
    \<Rightarrow> js_error + (DownloadedFile \<times> localStorage option)" where
  "saveFileToDownloads file now stamp w =
     (let files = getDownloadedFiles w;
          newFile = FileData.extend file \<lparr>id_field = now, createdAt = stamp\<rparr>;
          files = newFile # files;
          recentFiles = take 50 files
      in case setItem STORAGE_KEY recentFiles w of
           Inl e \<Rightarrow> Inl e
         | Inr w' \<Rightarrow> Inr (newFile, w'))"

definition deleteDownloadedFile :: "jsstring \<Rightarrow> localStorage option
    \<Rightarrow> js_error + localStorage option" where
  "deleteDownloadedFile fileId w =
     (let files = getDownloadedFiles w;
          filtered = filter (\<lambda>f. id_field f \<noteq> fileId) files
      in setItem STORAGE_KEY filtered w)"

section \<open>The request handler\<close>

text \<open>
  The handler \<open>POST\<close> of the whitepaper route. The body of the request is a JSON value
  (\<open>None\<close> when \<open>request.json()\<close> throws); a number is a rational, which covers every
  number a JSON text can denote within the range of doubles.
\<close>

datatype json =
    JNull
  | JBool bool
  | JNum rat
  | JStr jsstring
  | JArr "json list"
  | JObj "(jsstring \<times> json) list"

text \<open>
  What the handler does to the outside, in the order of the calls: \<open>getEmbedding\<close>,
  \<open>queryPinecone\<close>, the content generation of the source's lines 899 to 1018 (one call
  of \<open>chatCompletion\<close> and up to ten continuations), \<open>generateImage\<close> for a page index,
  and the construction of the document by one of the three generators.
\<close>

datatype effect =
    Embedding
  | Retrieval
  | ContentGeneration
  | ImageGeneration nat
  | DocumentConstruction jsstring

datatype framework_outcome = NoQuery | EmbeddingFailed | Queried

text \<open>
  The services behind the handler, as the outcomes they have in one run:
  \<^item> \<open>promptEmbedding\<close>: whether \<open>getEmbedding(prompt)\<close> returns (it throws otherwise);
  \<^item> \<open>frameworkLookup id\<close>: for an element of \<open>frameworks\<close>, whether
    \<open>frameworkQueries[id]\<close> is defined, and then whether its embedding is obtained
    (a failure of \<open>queryPinecone\<close> is caught and changes nothing);
  \<^item> \<open>contentGeneration\<close>: the text the content generation ends with, \<open>None\<close> when
    \<open>chatCompletion\<close> throws;
  \<^item> \<open>postProcess\<close>: the replacements of the source's lines 1056 to 1085, a function
    of the text;
  \<^item> \<open>generateImage n\<close>: the result of the \<open>n\<close>-th call of \<open>generateImage\<close>, \<open>None\<close>
    for \<open>null\<close>;
  \<^item> pdf-lib and \<open>pdfDoc.save()\<close>; the DOCX and PPTX generators (\<open>None\<close> when they
    throw); \<open>Buffer.from(s, 'utf-8')\<close>, \<open>toString('base64')\<close>, \<open>Date.now()\<close> as a
    decimal string; and \<open>ToNumber\<close> on the values that are not numbers, booleans or
    \<open>null\<close> (\<open>None\<close> for \<open>NaN\<close>).
\<close>

record services =
  promptEmbedding :: bool
  frameworkLookup :: "json \<Rightarrow> framework_outcome"
  contentGeneration :: "jsstring option"
  postProcess :: "jsstring \<Rightarrow> jsstring"
  generateImage :: "nat \<Rightarrow> jsstring option"
  pdfLib :: pdf_lib
  save :: "gen_state \<Rightarrow> jsstring"
  generateWhitepaperDOCX :: "jsstring \<Rightarrow> image list \<Rightarrow> jsstring option"
  generateWhitepaperPPT :: "jsstring \<Rightarrow> image list \<Rightarrow> jsstring option"
  utf8 :: "jsstring \<Rightarrow> jsstring"
  toBase64 :: "jsstring \<Rightarrow> jsstring"
  dateNow :: jsstring
  toNumber :: "json \<Rightarrow> rat option"

text \<open>The JSON responses: the success response of the source's line 1247, and the error
  responses, of which the model keeps the status and the field \<open>error\<close>.\<close>

record success_body =
  resp_document :: jsstring
  resp_filename :: jsstring
  resp_mimeType :: jsstring
  resp_content :: "jsstring option"
  resp_numPages :: "rat option"
  resp_writingStyle :: "json option"
  resp_frameworks :: json
  resp_imageFrequency :: "json option"
  resp_imagesGenerated :: nat

datatype response = Success success_body | Failure nat jsstring

text \<open>The property \<open>body.name\<close> of a parsed body that is not \<open>null\<close>: \<open>None\<close> is
  \<open>undefined\<close>.\<close>

definition property :: "json \<Rightarrow> string \<Rightarrow> json option" where
  "property body name = (case body of JObj props \<Rightarrow> map_of props (js name) | _ \<Rightarrow> None)"

fun truthy :: "json option \<Rightarrow> bool" where
  "truthy None = False"
| "truthy (Some JNull) = False"
| "truthy (Some (JBool b)) = b"
| "truthy (Some (JNum n)) = (n \<noteq> 0)"
| "truthy (Some (JStr s)) = (s \<noteq> [])"
| "truthy (Some (JArr xs)) = True"
| "truthy (Some (JObj fs)) = True"

definition number_of :: "services \<Rightarrow> json option \<Rightarrow> rat option" where
  "number_of env v =
     (case v of
        None \<Rightarrow> None
      | Some JNull \<Rightarrow> Some 0
      | Some (JBool b) \<Rightarrow> Some (if b then 1 else 0)
      | Some (JNum n) \<Rightarrow> Some n
      | Some j \<Rightarrow> toNumber env j)"

text \<open>\<open>Math.min(numPages, 50)\<close>; \<open>None\<close> is \<open>NaN\<close>.\<close>

definition math_min_50 :: "services \<Rightarrow> json option \<Rightarrow> rat option" where
  "math_min_50 env numPages =
     (case number_of env numPages of None \<Rightarrow> None | Some n \<Rightarrow> Some (min n 50))"

subsection \<open>The image frequency\<close>

definition isDigit :: "jschar \<Rightarrow> bool" where
  "isDigit c \<longleftrightarrow> 48 \<le> c \<and> c \<le> 57"

text \<open>A prefix of the string matches a lower-case ASCII word under the flag \<open>i\<close>.\<close>

fun starts_with_ci :: "string \<Rightarrow> jsstring \<Rightarrow> bool" where
  "starts_with_ci [] s = True"
| "starts_with_ci (p # ps) [] = False"
| "starts_with_ci (p # ps) (c # cs) =
     ((c = of_char p \<or> c = of_char p - 32) \<and> starts_with_ci ps cs)"

text \<open>\<open>per\s*(\d+)\<close> at the start of the string: the second group.\<close>

definition match_per :: "jsstring \<Rightarrow> jsstring option" where
  "match_per s =
     (if starts_with_ci ''per'' s then
        (let digits = takeWhile isDigit (dropWhile isSpace (drop 3 s))
         in if digits = [] then None else Some digits)
      else None)"

text \<open>\<open>.*?per\s*(\d+)\<close>: the lazy \<open>.*?\<close> takes as few characters as a match allows,
  none of them a line terminator.\<close>

fun match_rest :: "jsstring \<Rightarrow> jsstring option" where
  "match_rest [] = match_per []"
| "match_rest (c # cs) =
     (case match_per (c # cs) of
        Some digits \<Rightarrow> Some digits
      | None \<Rightarrow> if isLineTerminator c then None else match_rest cs)"

text \<open>The whole pattern \<open>(\d+)\s*image.*?per\s*(\d+)\<close> at the start of the string. The
  first group is the whole run of digits and \<open>\s*\<close> the whole run of white space: after
  a shorter one the next character could not match.\<close>

definition match_here :: "jsstring \<Rightarrow> (jsstring \<times> jsstring) option" where
  "match_here s =
     (let digits = takeWhile isDigit s;
          rest = dropWhile isSpace (dropWhile isDigit s)
      in if digits = [] \<or> \<not> starts_with_ci ''image'' rest then None
         else (case match_rest (drop 5 rest) of
                 None \<Rightarrow> None
               | Some digits2 \<Rightarrow> Some (digits, digits2)))"

text \<open>\<open>imageFrequency.match(/(\d+)\s*image.*?per\s*(\d+)/i)\<close>: the match at the leftmost
  position that has one.\<close>

fun image_frequency_match :: "jsstring \<Rightarrow> (jsstring \<times> jsstring) option" where
  "image_frequency_match [] = match_here []"
| "image_frequency_match (c # cs) =
     (case match_here (c # cs) of
        Some groups \<Rightarrow> Some groups
      | None \<Rightarrow> image_frequency_match cs)"

text \<open>\<open>parseInt\<close> on a string of decimal digits. The model is exact; a double is exact
  below \<open>2 ^ 53\<close>.\<close>

definition parseInt :: "jsstring \<Rightarrow> nat" where
  "parseInt digits = foldl (\<lambda>n d. 10 * n + nat (d - 48)) 0 digits"

subsection \<open>The generation of the images\<close>

text \<open>The state of the two loops: \<open>imageCounter\<close>, \<open>images\<close>, and the effects so far.\<close>

type_synonym image_state = "nat \<times> image list \<times> effect list"

definition image_step :: "services \<Rightarrow> rat \<Rightarrow> nat \<Rightarrow> image_state \<Rightarrow> nat \<Rightarrow> image_state" where
  "image_step env totalPages basePageIndex st imgInGroup =
     (let (imageCounter, images, effects) = st;
          pageIdx = basePageIndex + imgInGroup
      in if of_nat pageIdx < totalPages then
           (let imageCounter = imageCounter + 1;
                effects = effects @ [ImageGeneration pageIdx]
            in case generateImage env imageCounter of
                 None \<Rightarrow> (imageCounter, images, effects)
               | Some imageBase64 \<Rightarrow>
                   if imageBase64 \<noteq> [] \<and> length imageBase64 > 100
                   then (imageCounter,
                         images @ [\<lparr>pageIndex = pageIdx, base64 = imageBase64\<rparr>], effects)
                   else (imageCounter, images, effects))
         else st)"

definition group_step :: "services \<Rightarrow> rat \<Rightarrow> nat \<Rightarrow> nat \<Rightarrow> image_state \<Rightarrow> nat \<Rightarrow> image_state" where
  "group_step env totalPages imagesPerCount pagesPerImage st groupIndex =
     (let basePageIndex = (groupIndex + 1) * pagesPerImage - 1
      in foldl (image_step env totalPages basePageIndex) st [0..<imagesPerCount])"

definition generate_images :: "services \<Rightarrow> json option \<Rightarrow> json option
    \<Rightarrow> image list \<times> effect list" where
  "generate_images env imageFrequency numPages =
     (let imageMatch = (case imageFrequency of
                          Some (JStr s) \<Rightarrow> if s \<noteq> [] then image_frequency_match s else None
                        | _ \<Rightarrow> None);
          imagesPerCount = (case imageMatch of None \<Rightarrow> 0 | Some (a, b) \<Rightarrow> parseInt a);
          pagesPerImage = (case imageMatch of None \<Rightarrow> 0 | Some (a, b) \<Rightarrow> parseInt b)
      in if imagesPerCount > 0 \<and> pagesPerImage > 0 then
           (case math_min_50 env numPages of
              None \<Rightarrow> ([], [])
            | Some totalPages \<Rightarrow>
                (let numberOfImageGroups = nat \<lfloor>totalPages / of_nat pagesPerImage\<rfloor>;
                     (imageCounter, images, effects) =
                        foldl (group_step env totalPages imagesPerCount pagesPerImage)
                          (0, [], []) [0..<numberOfImageGroups]
                 in (images, effects)))
         else ([], []))"

subsection \<open>The document and the response\<close>

text \<open>The choice of the generator: the buffer, the MIME type and the file name, or
  \<open>None\<close> when the generator throws.\<close>

definition build_document :: "services \<Rightarrow> json \<Rightarrow> jsstring \<Rightarrow> image list
    \<Rightarrow> (jsstring \<times> jsstring \<times> jsstring) option \<times> effect list" where
  "build_document env outputFormat whitepaperContent images =
     (if outputFormat = JStr (js ''pdf'') then
        (case generateWhitepaperPDF (pdfLib env) whitepaperContent images of
           Inl e \<Rightarrow> (None, [DocumentConstruction (js ''pdf'')])
         | Inr st \<Rightarrow>
             (Some (save env st, js ''application/pdf'',
                    js ''whitepaper-'' @ dateNow env @ js ''.pdf''),
              [DocumentConstruction (js ''pdf'')]))
      else if outputFormat = JStr (js ''docx'') then
        (case generateWhitepaperDOCX env whitepaperContent images of
           None \<Rightarrow> (None, [DocumentConstruction (js ''docx'')])
         | Some buffer \<Rightarrow>
             (Some (buffer,
                    js ''application/vnd.openxmlformats-officedocument.wordprocessingml.document'',
                    js ''whitepaper-'' @ dateNow env @ js ''.docx''),
              [DocumentConstruction (js ''docx'')]))
      else if outputFormat = JStr (js ''ppt'') then
        (case generateWhitepaperPPT env whitepaperContent images of
           None \<Rightarrow> (None, [DocumentConstruction (js ''ppt'')])
         | Some buffer \<Rightarrow>
             (Some (buffer,
                    js ''application/vnd.openxmlformats-officedocument.presentationml.presentation'',
                    js ''whitepaper-'' @ dateNow env @ js ''.pptx''),
              [DocumentConstruction (js ''ppt'')]))
      else
        (Some (utf8 env whitepaperContent, js ''text/plain'',
               js ''whitepaper-'' @ dateNow env @ js ''.txt''), []))"

definition framework_effects :: "services \<Rightarrow> json \<Rightarrow> effect list" where
  "framework_effects env frameworkId =
     (case frameworkLookup env frameworkId of
        NoQuery \<Rightarrow> []
      | EmbeddingFailed \<Rightarrow> [Embedding]
      | Queried \<Rightarrow> [Embedding, Retrieval])"

text \<open>The handler after the test of the prompt. An exception that no inner \<open>try\<close>
  catches reaches the outer \<open>catch\<close>, which answers with status 500: the failure of
  \<open>getEmbedding(prompt)\<close>, a \<open>frameworks\<close> that is not an array (a string passes the
  loop, no character being a key of \<open>frameworkQueries\<close>, and fails at
  \<open>frameworks.map\<close>), and an exception of a generator.\<close>

definition generate :: "services \<Rightarrow> json \<Rightarrow> json \<Rightarrow> json option \<Rightarrow> json option
    \<Rightarrow> json option \<Rightarrow> response \<times> effect list" where
  "generate env outputFormat frameworks numPages imageFrequency writingStyle =
     (if \<not> promptEmbedding env
      then (Failure 500 (js ''Failed to generate whitepaper''), [Embedding])
      else case frameworks of
        JArr ids \<Rightarrow>
          (let effects = [Embedding, Retrieval] @ concat (map (framework_effects env) ids)
                           @ [ContentGeneration]
           in case contentGeneration env of
                None \<Rightarrow> (Failure 500 (js ''Failed to generate whitepaper content''), effects)
              | Some raw \<Rightarrow>
                  if raw = [] \<or> length (trim raw) = 0 then
                    (Failure 500
                       (js ''Failed to generate whitepaper content. The AI response was empty.''),
                     effects)
                  else
                    (let whitepaperContent = postProcess env raw;
                         (images, imageEffects) = generate_images env imageFrequency numPages;
                         (built, documentEffects) =
                            build_document env outputFormat whitepaperContent images;
                         effects = effects @ imageEffects @ documentEffects
                     in case built of
                          None \<Rightarrow> (Failure 500 (js ''Failed to generate whitepaper''), effects)
                        | Some (documentBuffer, mime, name) \<Rightarrow>
                            (Success
                               \<lparr>resp_document = toBase64 env documentBuffer,
                                resp_filename = name,
                                resp_mimeType = mime,
                                resp_content = (if outputFormat = JStr (js ''ppt'') then None
                                                else Some whitepaperContent),
                                resp_numPages = math_min_50 env numPages,
                                resp_writingStyle = writingStyle,
                                resp_frameworks = frameworks,
                                resp_imageFrequency = imageFrequency,
                                resp_imagesGenerated = length images\<rparr>,
                             effects)))
      | _ \<Rightarrow> (Failure 500 (js ''Failed to generate whitepaper''), [Embedding, Retrieval]))"

text \<open>\<open>POST(request)\<close>. Destructuring \<open>null\<close> throws a TypeError, which the outer
  \<open>catch\<close> answers; any other JSON value has the six properties, defined or not.\<close>

definition POST :: "services \<Rightarrow> json option \<Rightarrow> response \<times> effect list" where
  "POST env request =
     (case request of
        None \<Rightarrow> (Failure 400 (js ''Invalid JSON in request body''), [])
      | Some body \<Rightarrow>
          if body = JNull then (Failure 500 (js ''Failed to generate whitepaper''), [])
          else
            (let prompt = property body ''prompt'';
                 outputFormat = (case property body ''outputFormat'' of
                                   None \<Rightarrow> JStr (js ''pdf'') | Some v \<Rightarrow> v);
                 numPages = property body ''numPages'';
                 imageFrequency = property body ''imageFrequency'';
                 writingStyle = property body ''writingStyle'';
                 frameworks = (case property body ''frameworks'' of
                                 None \<Rightarrow> JArr [] | Some v \<Rightarrow> v)
             in if \<not> truthy prompt
                then (Failure 400 (js ''Prompt is required''), [])
                else generate env outputFormat frameworks numPages imageFrequency
                       writingStyle))"

section \<open>Observations and specifications\<close>

subsection \<open>The segmentation as the specification words it\<close>




subsection \<open>What a run of the PDF generator leaves in the log\<close>

text \<open>The images drawn, each with its page, and the texts drawn, each with its size
  and font, in the order of the calls.\<close>

fun image_of :: "pdf_call \<Rightarrow> (nat \<times> image) list" where
  "image_of (DrawImage p img x y w h) = [(p, img)]"
| "image_of c = []"

definition image_calls :: "pdf_call list \<Rightarrow> (nat \<times> image) list" where
  "image_calls cs = concat (map image_of cs)"

fun text_of :: "pdf_call \<Rightarrow> (jsstring \<times> rat \<times> font) list" where
  "text_of (DrawText p t x y sz f) = [(t, sz, f)]"
| "text_of c = []"

definition text_calls :: "pdf_call list \<Rightarrow> (jsstring \<times> rat \<times> font) list" where
  "text_calls cs = concat (map text_of cs)"

text \<open>A text is drawn between the bottom margin and the first line of a page.\<close>

fun text_y_ok :: "pdf_call \<Rightarrow> bool" where
  "text_y_ok (DrawText p t x y sz f) = (72 \<le> y \<and> y \<le> 720)"
| "text_y_ok c = True"

text \<open>The image that belongs on page \<open>k\<close>: the first image of the list with that
  \<open>pageIndex\<close>, if pdf-lib can embed it.\<close>

definition expected_image :: "pdf_lib \<Rightarrow> image list \<Rightarrow> nat \<Rightarrow> (nat \<times> image) list" where
  "expected_image lib images k =
     (case find (\<lambda>img. pageIndex img = k) images of
        None \<Rightarrow> []
      | Some img \<Rightarrow> (case embed_image lib (base64 img) of None \<Rightarrow> [] | Some d \<Rightarrow> [(k, img)]))"

text \<open>The invariant of the generator's state: the current page is the last page and
  has the index \<open>currentPageIndex\<close>, the cursor is on the page, every call so far has
  the fixed page size and a text position inside the margins, and the images drawn
  are those of the pages begun so far.\<close>

fun ok_call :: "pdf_call \<Rightarrow> bool" where
  "ok_call (AddPage w h) = (w = 612 \<and> h = 792)"
| "ok_call (DrawText p t x y sz f) = (72 \<le> y \<and> y \<le> 720)"
| "ok_call (DrawImage p img x y w h) = True"

definition inv :: "pdf_lib \<Rightarrow> image list \<Rightarrow> gen_state \<Rightarrow> bool" where
  "inv lib images st \<longleftrightarrow>
     currentPage st = currentPageIndex st \<and>
     page_count (calls st) = Suc (currentPageIndex st) \<and>
     yPosition st \<le> 720 \<and>
     (\<forall>k\<in>imagesPlacedOnPage st. k \<le> currentPageIndex st) \<and>
     list_all ok_call (calls st) \<and>
     image_calls (calls st) =
       concat (map (expected_image lib images) [1..<Suc (currentPageIndex st)])"

subsection \<open>Words and lines\<close>








subsection \<open>What a run of the handler leaves in its effects\<close>

text \<open>The page indices for which \<open>generateImage\<close> was called, in the order of the
  calls; the page indices one group of the image loop asks for; and the set of target
  pages for \<open>N\<close> images per \<open>M\<close> pages in a document of \<open>P\<close> pages.\<close>

fun attempted_page :: "effect \<Rightarrow> nat list" where
  "attempted_page (ImageGeneration p) = [p]"
| "attempted_page e = []"

definition attempted_pages :: "effect list \<Rightarrow> nat list" where
  "attempted_pages effects = concat (map attempted_page effects)"

definition group_targets :: "rat \<Rightarrow> nat \<Rightarrow> nat \<Rightarrow> nat \<Rightarrow> nat list" where
  "group_targets P N M g =
     filter (\<lambda>p. of_nat p < P) (map (\<lambda>k. (g + 1) * M - 1 + k) [0..<N])"

definition target_pages :: "rat \<Rightarrow> nat \<Rightarrow> nat \<Rightarrow> nat set" where
  "target_pages P N M =
     {(g + 1) * M - 1 + k | g k. g < nat \<lfloor>P / of_nat M\<rfloor> \<and> k < N} \<inter> {p. of_nat p < P}"

text \<open>The value of \<open>outputFormat\<close> after the destructuring of the body, with its
  default.\<close>

definition output_format :: "json \<Rightarrow> json" where
  "output_format body =
     (case property body ''outputFormat'' of None \<Rightarrow> JStr (js ''pdf'') | Some v \<Rightarrow> v)"

subsection \<open>Concrete inputs\<close>

text \<open>
  A font in which every character is twenty times as wide as the font size, so that a
  line holds one word of one letter; a PNG of 40 by 30 pixels and a JPEG of 100 by
  50 pixels. The document is a heading of thirty-one words and a paragraph of two:
  the heading fills the first page and ends on the second.
\<close>

definition example_lib :: pdf_lib where
  "example_lib =
     \<lparr>widthOfTextAtSize = (\<lambda>f t sz. of_nat (length t) * sz * 20),
      embedPng = (\<lambda>b. if b = js ''png'' then Some (40, 30) else None),
      embedJpg = (\<lambda>b. if b = js ''jpg'' then Some (100, 50) else None)\<rparr>"

definition example_document :: jsstring where
  "example_document = js ''#'' @ concat (replicate 31 (js '' a'')) @ [NL, NL] @ js ''b c''"

definition example_images :: "image list" where
  "example_images =
     [\<lparr>pageIndex = 1, base64 = js ''png''\<rparr>, \<lparr>pageIndex = 5, base64 = js ''jpg''\<rparr>]"



definition example_services :: services where
  "example_services =
     \<lparr>promptEmbedding = True,
      frameworkLookup = (\<lambda>j. if j = JStr (js ''swot'') then Queried else NoQuery),
      contentGeneration = Some (js ''# Maps'' @ [NL, NL] @ js ''Games on maps.''),
      postProcess = (\<lambda>s. s),
      generateImage = (\<lambda>n. if n = 1 then Some (replicate 101 65) else None),
      pdfLib = example_lib,
      save = (\<lambda>st. js ''%PDF''),
      generateWhitepaperDOCX = (\<lambda>c imgs. Some (js ''PK-docx'')),
      generateWhitepaperPPT = (\<lambda>c imgs. Some (js ''PK-pptx'')),
      utf8 = (\<lambda>s. s),
      toBase64 = (\<lambda>s. s),
      dateNow = js ''1700000000000'',
      toNumber = (\<lambda>j. None)\<rparr>"

definition example_request :: "string \<Rightarrow> json" where
  "example_request fmt =
     JObj [(js ''prompt'', JStr (js ''maps'')),
           (js ''outputFormat'', JStr (js fmt)),
           (js ''numPages'', JNum 5),
           (js ''imageFrequency'', JStr (js ''2 images per 2 pages'')),
           (js ''frameworks'', JArr [JStr (js ''swot'')])]"

section \<open>The segmentation\<close>














text \<open>Below five paragraphs the two segmentations differ: a line after a heading
  line stays in the heading's paragraph for DOCX and PPTX and starts a paragraph for
  PDF.\<close>

lemma segmentation_below_five:
  "docx_paragraphs (js ''# T\<newline>a\<newline>\<newline>b'') = [js ''# T\<newline>a'', js ''b''] \<and>
   pdf_paragraphs (js ''# T\<newline>a\<newline>\<newline>b'') = [js ''# T'', js ''a b'']"
  by code_simp

section \<open>The invariant of the PDF generator\<close>

text \<open>An image is at most 40 percent of the page high after scaling, so that at the top
  of a fresh page it always fits: the page break inside \<open>placeImageIfNeeded\<close> is never
  taken where the generator calls it, and the image lands on the page just begun.\<close>

lemma scale_image_height:
  assumes "scale_image (of_nat w, of_nat h) = (iw, ih)"
  shows "0 \<le> ih \<and> ih \<le> 1584 / 5"
proof -
  define w1 h1 :: rat where
    "w1 = (if of_nat w > (468::rat) then of_nat w * (468 / of_nat w) else of_nat w)" and
    "h1 = (if of_nat w > (468::rat) then of_nat h * (468 / of_nat w) else of_nat h)"
  have h1: "0 \<le> h1" by (simp add: h1_def)
  have "ih = (if h1 > 1584 / 5 then h1 * ((1584 / 5) / h1) else h1)"
    using assms by (auto simp: scale_image_def layout Let_def w1_def h1_def split: if_splits)
  then show ?thesis using h1 by (auto split: if_splits)
qed

lemma page_count_append [simp]: "page_count (xs @ ys) = page_count xs + page_count ys"
  by (simp add: page_count_def)

lemma image_calls_append [simp]: "image_calls (xs @ ys) = image_calls xs @ image_calls ys"
  by (simp add: image_calls_def)

lemma text_calls_append [simp]: "text_calls (xs @ ys) = text_calls xs @ text_calls ys"
  by (simp add: text_calls_def)

lemma start_new_page_simps [simp]:
  "calls (start_new_page st) = calls st @ [AddPage 612 792]"
  "currentPage (start_new_page st) = page_count (calls st)"
  "yPosition (start_new_page st) = 720"
  "currentPageIndex (start_new_page st) = Suc (currentPageIndex st)"
  "imagesPlacedOnPage (start_new_page st) = imagesPlacedOnPage st"
  by (simp_all add: start_new_page_def addPage_def Let_def layout)

lemma placeImageIfNeeded_fresh:
  assumes y: "yPosition st = 720" and k: "k \<notin> imagesPlacedOnPage st"
  shows "\<exists>new. calls (placeImageIfNeeded lib images k st) = calls st @ new \<and>
           image_calls new = map (\<lambda>(j, img). (currentPage st, img)) (expected_image lib images k) \<and>
           text_calls new = [] \<and> page_count new = 0 \<and> list_all ok_call new"
    and "currentPage (placeImageIfNeeded lib images k st) = currentPage st"
    and "currentPageIndex (placeImageIfNeeded lib images k st) = currentPageIndex st"
    and "imagesPlacedOnPage (placeImageIfNeeded lib images k st) \<subseteq> insert k (imagesPlacedOnPage st)"
    and "1896 / 5 \<le> yPosition (placeImageIfNeeded lib images k st)"
    and "yPosition (placeImageIfNeeded lib images k st) \<le> 720"
proof -
  show "\<exists>new. calls (placeImageIfNeeded lib images k st) = calls st @ new \<and>
           image_calls new = map (\<lambda>(j, img). (currentPage st, img)) (expected_image lib images k) \<and>
           text_calls new = [] \<and> page_count new = 0 \<and> list_all ok_call new"
    using y k
    by (auto simp: placeImageIfNeeded_def expected_image_def Let_def layout image_calls_def
        text_calls_def page_count_def
        split: option.splits prod.splits dest!: scale_image_height)
  show "currentPage (placeImageIfNeeded lib images k st) = currentPage st"
    using y k
    by (auto simp: placeImageIfNeeded_def Let_def layout
        split: option.splits prod.splits dest!: scale_image_height)
  show "currentPageIndex (placeImageIfNeeded lib images k st) = currentPageIndex st"
    using y k
    by (auto simp: placeImageIfNeeded_def Let_def layout
        split: option.splits prod.splits dest!: scale_image_height)
  show "imagesPlacedOnPage (placeImageIfNeeded lib images k st) \<subseteq> insert k (imagesPlacedOnPage st)"
    using y k
    by (auto simp: placeImageIfNeeded_def Let_def layout
        split: option.splits prod.splits if_splits)
  show "1896 / 5 \<le> yPosition (placeImageIfNeeded lib images k st)"
    using y k
    by (auto simp: placeImageIfNeeded_def Let_def layout
        split: option.splits prod.splits dest!: scale_image_height)
  show "yPosition (placeImageIfNeeded lib images k st) \<le> 720"
    using y k
    by (auto simp: placeImageIfNeeded_def Let_def layout
        split: option.splits prod.splits dest!: scale_image_height)
qed

lemma break_page_calls:
  assumes "inv lib images st"
  shows "\<exists>new. calls (break_page lib images st) = calls st @ AddPage 612 792 # new \<and>
           image_calls new = expected_image lib images (Suc (currentPageIndex st)) \<and>
           text_calls new = [] \<and> page_count new = 0 \<and> list_all ok_call new"
proof -
  let ?s = "start_new_page st"
  have k: "Suc (currentPageIndex st) \<notin> imagesPlacedOnPage ?s"
    using assms by (auto simp: inv_def)
  have y: "yPosition ?s = 720" by simp
  obtain new where new:
    "calls (placeImageIfNeeded lib images (Suc (currentPageIndex st)) ?s) = calls ?s @ new"
    "image_calls new = map (\<lambda>(j, img). (currentPage ?s, img))
        (expected_image lib images (Suc (currentPageIndex st)))"
    "text_calls new = []" "page_count new = 0" "list_all ok_call new"
    using placeImageIfNeeded_fresh(1) [OF y k, of lib images] by blast
  have "currentPage ?s = Suc (currentPageIndex st)"
    using assms by (simp add: inv_def)
  then have "image_calls new = expected_image lib images (Suc (currentPageIndex st))"
    using new(2)
    by (auto simp: expected_image_def split: option.splits)
  then show ?thesis
    using new by (simp add: break_page_def Let_def)
qed

lemma break_page_fields:
  assumes "inv lib images st"
  shows "currentPage (break_page lib images st) = Suc (currentPageIndex st)"
    and "currentPageIndex (break_page lib images st) = Suc (currentPageIndex st)"
    and "imagesPlacedOnPage (break_page lib images st)
           \<subseteq> insert (Suc (currentPageIndex st)) (imagesPlacedOnPage st)"
    and "1896 / 5 \<le> yPosition (break_page lib images st)"
    and "yPosition (break_page lib images st) \<le> 720"
proof -
  let ?s = "start_new_page st"
  have k: "Suc (currentPageIndex st) \<notin> imagesPlacedOnPage ?s"
    using assms by (auto simp: inv_def)
  have y: "yPosition ?s = 720" by simp
  note f = placeImageIfNeeded_fresh [OF y k, of lib images]
  show "currentPage (break_page lib images st) = Suc (currentPageIndex st)"
    using f(2) assms by (simp add: break_page_def Let_def inv_def)
  show "currentPageIndex (break_page lib images st) = Suc (currentPageIndex st)"
    using f(3) by (simp add: break_page_def Let_def)
  show "imagesPlacedOnPage (break_page lib images st)
           \<subseteq> insert (Suc (currentPageIndex st)) (imagesPlacedOnPage st)"
    using f(4) by (simp add: break_page_def Let_def)
  show "1896 / 5 \<le> yPosition (break_page lib images st)"
    using f(5) by (simp add: break_page_def Let_def)
  show "yPosition (break_page lib images st) \<le> 720"
    using f(6) by (simp add: break_page_def Let_def)
qed

lemma break_page_inv:
  assumes "inv lib images st"
  shows "inv lib images (break_page lib images st)"
proof -
  obtain new where new:
    "calls (break_page lib images st) = calls st @ AddPage 612 792 # new"
    "image_calls new = expected_image lib images (Suc (currentPageIndex st))"
    "page_count new = 0" "list_all ok_call new"
    using break_page_calls [OF assms] by blast
  note f = break_page_fields [OF assms]
  have pc: "page_count (calls (break_page lib images st)) = Suc (Suc (currentPageIndex st))"
    using new assms by (simp add: inv_def page_count_def)
  have placed: "\<forall>k\<in>imagesPlacedOnPage (break_page lib images st). k \<le> Suc (currentPageIndex st)"
    using f(3) assms by (fastforce simp: inv_def)
  have ok: "list_all ok_call (calls (break_page lib images st))"
    using new assms by (simp add: inv_def)
  have img: "image_calls (calls (break_page lib images st)) =
      concat (map (expected_image lib images) [1..<Suc (Suc (currentPageIndex st))])"
    using new assms by (simp add: inv_def image_calls_def)
  show ?thesis
    unfolding inv_def using f(1,2,5) pc placed ok img by simp
qed

lemma inv_yPosition_update:
  "inv lib images st \<Longrightarrow> y \<le> 720 \<Longrightarrow> inv lib images (st\<lparr>yPosition := y\<rparr>)"
  by (simp add: inv_def)

lemma heading_spacing_inv:
  assumes "inv lib images st"
  shows "inv lib images (heading_spacing lib images i h1 h2 h3 st)"
  using assms break_page_inv [OF assms]
  by (auto simp: heading_spacing_def Let_def layout intro!: inv_yPosition_update)
     (auto simp: inv_def)

lemma ensure_room_inv:
  assumes "inv lib images st" and "lh \<le> 108 / 5"
  shows "inv lib images (ensure_room lib images lh st)"
    and "72 \<le> yPosition (ensure_room lib images lh st) - lh"
  using assms break_page_inv [OF assms(1)] break_page_fields(4) [OF assms(1)]
  by (auto simp: ensure_room_def layout)

lemma drawText_fields [simp]:
  "yPosition (drawText t sz f st) = yPosition st"
  "currentPage (drawText t sz f st) = currentPage st"
  "currentPageIndex (drawText t sz f st) = currentPageIndex st"
  "imagesPlacedOnPage (drawText t sz f st) = imagesPlacedOnPage st"
  by (simp_all add: drawText_def)

lemma drawText_inv:
  assumes "inv lib images st" and "72 \<le> yPosition st" and "y' \<le> yPosition st"
  shows "inv lib images ((drawText t sz f st)\<lparr>yPosition := y'\<rparr>)"
  using assms by (simp add: inv_def drawText_def image_calls_def page_count_def)

lemma flush_line_inv:
  assumes "inv lib images st" and "72 \<le> yPosition st - lh" and "0 < lh" and "lh \<le> 108 / 5"
  shows "inv lib images (flush_line lib images f sz lh cur st)"
    and "72 \<le> yPosition (flush_line lib images f sz lh cur st) - lh"
proof -
  define st1 where "st1 = (if clean_line cur \<noteq> []
       then (drawText (clean_line cur) sz f st)\<lparr>yPosition := yPosition st - lh\<rparr> else st)"
  have i1: "inv lib images st1"
    using assms drawText_inv [of lib images st "yPosition st - lh"]
    by (simp add: st1_def)
  have fl: "flush_line lib images f sz lh cur st =
      (if yPosition st1 - lh < 72 then break_page lib images st1 else st1)"
    by (simp add: flush_line_def Let_def st1_def layout drawText_def)
  show "inv lib images (flush_line lib images f sz lh cur st)"
    using i1 break_page_inv [OF i1] by (simp add: fl)
  show "72 \<le> yPosition (flush_line lib images f sz lh cur st) - lh"
    using break_page_fields(4) [OF i1] assms(4) by (auto simp: fl)
qed

lemma word_loop_inv:
  assumes "inv lib images st" and "72 \<le> yPosition st - lh" and "0 < lh" and "lh \<le> 108 / 5"
  shows "inv lib images (snd (word_loop lib images f sz lh ws (cur, st))) \<and>
         72 \<le> yPosition (snd (word_loop lib images f sz lh ws (cur, st))) - lh"
  using assms
proof (induction ws arbitrary: cur st)
  case Nil
  then show ?case by simp
next
  case (Cons w ws)
  note fl = flush_line_inv [OF Cons.prems, of f sz cur]
  show ?case
    using Cons.IH [OF fl Cons.prems(3,4)] Cons.IH [OF Cons.prems]
    by (simp add: Let_def)
qed

lemma draw_last_line_inv:
  assumes "inv lib images st" and "72 \<le> yPosition st - lh" and "0 < lh" and "0 \<le> bs"
  shows "inv lib images (draw_last_line f sz lh bs cur st)"
  using assms drawText_inv [of lib images st "yPosition st - (lh + bs)"]
  by (simp add: draw_last_line_def Let_def)

lemma layout_paragraph_inv:
  assumes "inv lib images st"
  shows "inv lib images (layout_paragraph lib images i h1 h2 h3 t st)"
proof -
  define lh where "lh = (if h1 then headingLineHeight
                         else if h2 then subHeadingLineHeight else bodyLineHeight)"
  define sz where "sz = (if h1 then headingFontSize else if h2 then subHeadingFontSize
                         else if h3 then 14 else fontSize)"
  define f where "f = (if h1 \<or> h2 \<or> h3 then HelveticaBold else Helvetica)"
  define bs where "bs = (if h1 then headingBottomMargin
                         else if h2 \<or> h3 then subHeadingBottomMargin else paragraphSpacing)"
  define st1 where "st1 = heading_spacing lib images i h1 h2 h3 st"
  define st2 where "st2 = ensure_room lib images lh st1"
  define r where "r = word_loop lib images f sz lh (words_of t) ([], st2)"
  have lh: "0 < lh" "lh \<le> 108 / 5" by (simp_all add: lh_def layout)
  have bs: "0 \<le> bs" by (simp add: bs_def layout)
  have i1: "inv lib images st1"
    unfolding st1_def by (rule heading_spacing_inv [OF assms])
  have i2: "inv lib images st2" "72 \<le> yPosition st2 - lh"
    unfolding st2_def using ensure_room_inv [OF i1 lh(2)] by simp_all
  have i3: "inv lib images (snd r)" "72 \<le> yPosition (snd r) - lh"
    unfolding r_def using word_loop_inv [OF i2 lh] by simp_all
  have "layout_paragraph lib images i h1 h2 h3 t st = draw_last_line f sz lh bs (fst r) (snd r)"
    by (simp add: layout_paragraph_def Let_def lh_def sz_def f_def bs_def st1_def st2_def r_def
        split: prod.splits)
  then show ?thesis
    using draw_last_line_inv [OF i3 lh(1) bs] by simp
qed

lemma process_paragraph_inv:
  assumes "inv lib images st"
  shows "inv lib images (process_paragraph lib images i p st)"
  using assms layout_paragraph_inv [OF assms]
  by (simp add: process_paragraph_def Let_def)

lemma paragraph_loop_inv:
  assumes "inv lib images st"
  shows "inv lib images (paragraph_loop lib images i ps st)"
  using assms
  by (induction ps arbitrary: i st) (simp_all add: process_paragraph_inv)

lemma initial_state_inv: "inv lib images initial_state"
  by (simp add: inv_def initial_state_def layout page_count_def image_calls_def)

lemma generate_inv:
  assumes "generateWhitepaperPDF lib content images = Inr st"
  shows "inv lib images st"
  using assms paragraph_loop_inv [OF initial_state_inv]
  by (auto simp: generateWhitepaperPDF_def split: if_splits)

lemma example_run:
  "map_sum id
     (\<lambda>st. (page_count (calls st), currentPageIndex st, length (text_calls (calls st)),
            map (\<lambda>(p, img). (p, pageIndex img, base64 img)) (image_calls (calls st))))
     (generateWhitepaperPDF example_lib example_document example_images) =
   Inr (2, 1, 33, [(1, 1, js ''png'')])"
  by code_simp

lemma example_run_state:
  obtains st where
    "generateWhitepaperPDF example_lib example_document example_images = Inr st"
    "page_count (calls st) = 2" "currentPageIndex st = 1"
    "length (text_calls (calls st)) = 33"
    "map (\<lambda>(p, img). (p, pageIndex img, base64 img)) (image_calls (calls st)) =
       [(1, 1, js ''png'')]"
proof (cases "generateWhitepaperPDF example_lib example_document example_images")
  case (Inl e)
  then show ?thesis using example_run by simp
next
  case (Inr st)
  then show ?thesis using example_run that [of st] by simp
qed

text \<open>
  Claim C3. Every page the PDF generator adds, at whichever of its page breaks, has
  the size 612 by 792 points; the number of pages is one more than the index of the
  last page.
\<close>

theorem pages_fixed_size:
  assumes "generateWhitepaperPDF lib content images = Inr st"
  shows "list_all (\<lambda>c. is_AddPage c \<longrightarrow> c = AddPage 612 792) (calls st) \<and>
         page_count (calls st) = Suc (currentPageIndex st)"
proof -
  have i: "inv lib images st" by (rule generate_inv [OF assms])
  have "ok_call c \<Longrightarrow> is_AddPage c \<longrightarrow> c = AddPage 612 792" for c
    by (cases c) simp_all
  then show ?thesis
    using i by (auto simp: inv_def list_all_iff)
qed

theorem pages_fixed_size_witness:
  "\<exists>st. generateWhitepaperPDF example_lib example_document example_images = Inr st \<and>
        list_all (\<lambda>c. is_AddPage c \<longrightarrow> c = AddPage 612 792) (calls st) \<and>
        page_count (calls st) = Suc (currentPageIndex st) \<and>
        page_count (calls st) = 2"
proof -
  obtain st where st:
    "generateWhitepaperPDF example_lib example_document example_images = Inr st"
    "page_count (calls st) = 2"
    by (rule example_run_state)
  show ?thesis
    using pages_fixed_size [OF st(1)] st by blast
qed

text \<open>
  Claim C2. Where the next line would cross the bottom margin (the cursor less the
  line height is below 72), the generator breaks the page: it adds a page and puts
  the cursor at 720, the page height less the top margin, before it places the image
  of the page. Every text of a generated document is drawn at a height between 72 and
  720.
\<close>

theorem text_within_margins:
  assumes "generateWhitepaperPDF lib content images = Inr st"
  shows "list_all text_y_ok (calls st) \<and>
         height - topMargin = 720 \<and> bottomMargin = 72 \<and>
         (\<forall>s lh. yPosition s - lh < bottomMargin \<longrightarrow>
            ensure_room lib images lh s = break_page lib images s) \<and>
         (\<forall>s lh f sz cur. clean_line cur \<noteq> [] \<and> yPosition s - lh - lh < bottomMargin \<longrightarrow>
            flush_line lib images f sz lh cur s =
              break_page lib images
                ((drawText (clean_line cur) sz f s)\<lparr>yPosition := yPosition s - lh\<rparr>)) \<and>
         (\<forall>s. break_page lib images s =
            placeImageIfNeeded lib images (Suc (currentPageIndex s)) (start_new_page s) \<and>
            calls (start_new_page s) = calls s @ [AddPage 612 792] \<and>
            yPosition (start_new_page s) = height - topMargin)"
proof -
  have i: "inv lib images st" by (rule generate_inv [OF assms])
  have "ok_call c \<Longrightarrow> text_y_ok c" for c
    by (cases c) simp_all
  then have "list_all text_y_ok (calls st)"
    using i by (auto simp: inv_def list_all_iff)
  then show ?thesis
    by (simp add: ensure_room_def flush_line_def break_page_def Let_def layout)
qed

theorem text_within_margins_witness:
  "\<exists>st. generateWhitepaperPDF example_lib example_document example_images = Inr st \<and>
        list_all text_y_ok (calls st) \<and>
        length (text_calls (calls st)) = 33 \<and> page_count (calls st) = 2"
proof -
  obtain st where st:
    "generateWhitepaperPDF example_lib example_document example_images = Inr st"
    "page_count (calls st) = 2" "length (text_calls (calls st)) = 33"
    by (rule example_run_state)
  show ?thesis
    using text_within_margins [OF st(1)] st by blast
qed

subsection \<open>The images of a run\<close>

lemma expected_image_pageIndex:
  "(p, img) \<in> set (expected_image lib images k) \<Longrightarrow> p = k \<and> pageIndex img = k"
proof -
  assume a: "(p, img) \<in> set (expected_image lib images k)"
  show ?thesis
  proof (cases "find (\<lambda>img. pageIndex img = k) images")
    case None
    with a show ?thesis by (simp add: expected_image_def)
  next
    case (Some img')
    then have "pageIndex img' = k" by (auto simp: find_Some_iff)
    with a Some show ?thesis
      by (auto simp: expected_image_def split: option.splits)
  qed
qed

lemma filter_expected_upto:
  "filter (\<lambda>(p, img). pageIndex img = k)
     (concat (map (expected_image lib images) [a..<n])) =
   (if a \<le> k \<and> k < n then expected_image lib images k else [])"
proof (induction n)
  case 0
  then show ?case by simp
next
  case (Suc n)
  have same: "filter (\<lambda>(p, img). pageIndex img = k) (expected_image lib images k) =
      expected_image lib images k"
    by (rule filter_True) (auto dest: expected_image_pageIndex)
  have other: "filter (\<lambda>(p, img). pageIndex img = k) (expected_image lib images n) = []"
    if "n \<noteq> k"
    using that by (auto simp: filter_empty_conv dest: expected_image_pageIndex)
  show ?case
  proof (cases "a \<le> n")
    case True
    then show ?thesis
      using Suc same other by (cases "n = k") auto
  next
    case False
    then have "[a..<Suc n] = []" and "\<not> (a \<le> k \<and> k < Suc n)"
      by simp_all
    then show ?thesis by (simp only: if_False list.map concat.simps filter.simps)
  qed
qed

text \<open>
  Claim C1, amended. Every image the PDF generator draws is on the page whose index is
  the image's \<open>pageIndex\<close>. For every \<open>k\<close> from 1 on, the images drawn with \<open>pageIndex\<close>
  \<open>k\<close> are: the first image of the list with that \<open>pageIndex\<close>, once, if the document
  has a page \<open>k\<close> and pdf-lib can embed the image; none otherwise.
\<close>

theorem images_on_target_pages:
  assumes "generateWhitepaperPDF lib content images = Inr st"
  shows "list_all (\<lambda>(p, img). p = pageIndex img) (image_calls (calls st)) \<and>
         (\<forall>k\<ge>1. filter (\<lambda>(p, img). pageIndex img = k) (image_calls (calls st)) =
            (if k < page_count (calls st) then expected_image lib images k else []))"
proof -
  have i: "inv lib images st" by (rule generate_inv [OF assms])
  then have img: "image_calls (calls st) =
      concat (map (expected_image lib images) [1..<page_count (calls st)])"
    by (simp add: inv_def)
  have "list_all (\<lambda>(p, img). p = pageIndex img) (image_calls (calls st))"
    unfolding img by (auto simp: list_all_iff dest: expected_image_pageIndex)
  moreover have "filter (\<lambda>(p, img). pageIndex img = k) (image_calls (calls st)) =
            (if k < page_count (calls st) then expected_image lib images k else [])"
    if "1 \<le> k" for k
    using that filter_expected_upto [of k lib images 1 "page_count (calls st)"] img
    by simp
  ultimately show ?thesis by simp
qed

theorem images_on_target_pages_witness:
  "\<exists>st. generateWhitepaperPDF example_lib example_document example_images = Inr st \<and>
        page_count (calls st) = 2 \<and>
        list_all (\<lambda>(p, img). p = pageIndex img) (image_calls (calls st)) \<and>
        filter (\<lambda>(p, img). pageIndex img = 1) (image_calls (calls st)) =
          [(1, \<lparr>pageIndex = 1, base64 = js ''png''\<rparr>)] \<and>
        filter (\<lambda>(p, img). pageIndex img = 5) (image_calls (calls st)) = []"
proof -
  obtain st where st:
    "generateWhitepaperPDF example_lib example_document example_images = Inr st"
    "page_count (calls st) = 2"
    by (rule example_run_state)
  have e1: "expected_image example_lib example_images 1 =
      [(1, \<lparr>pageIndex = 1, base64 = js ''png''\<rparr>)]"
    by (simp add: expected_image_def example_images_def embed_image_def example_lib_def)
  show ?thesis
    using images_on_target_pages [OF st(1)] st e1 by simp
qed

text \<open>Claim C1 as stated fails: an image for page 5 that pdf-lib can embed is not drawn
  in a document of one page.\<close>

theorem image_beyond_last_page_not_embedded:
  "embed_image example_lib (js ''jpg'') = Some (100, 50) \<and>
   map_sum id calls
     (generateWhitepaperPDF example_lib (js ''hello'')
        [\<lparr>pageIndex = 5, base64 = js ''jpg''\<rparr>]) =
     Inr [AddPage 612 792, DrawText 0 (js ''hello'') 72 720 12 Helvetica]"
  by code_simp

section \<open>The texts of a run\<close>

text \<open>Page breaks and images add no text. The loop over the words keeps the words
  read and not yet drawn in \<open>currentLine\<close>, joined by spaces; a line it draws splits
  at its spaces into the words it was joined from.\<close>

lemma isSpace_SPACE [simp]: "isSpace SPACE"
  by (simp add: isSpace_def SPACE_def)

lemma placeImageIfNeeded_texts [simp]:
  "text_calls (calls (placeImageIfNeeded lib images k st)) = text_calls (calls st)"
  by (auto simp: placeImageIfNeeded_def Let_def text_calls_def split: option.splits prod.splits)

lemma text_calls_simps [simp]:
  "text_calls [] = []"
  "text_calls (c # cs) = text_of c @ text_calls cs"
  by (simp_all add: text_calls_def)

lemma break_page_texts [simp]:
  "text_calls (calls (break_page lib images st)) = text_calls (calls st)"
  by (simp add: break_page_def Let_def)

lemma heading_spacing_texts [simp]:
  "text_calls (calls (heading_spacing lib images i h1 h2 h3 st)) = text_calls (calls st)"
  by (simp add: heading_spacing_def Let_def)

lemma ensure_room_texts [simp]:
  "text_calls (calls (ensure_room lib images lh st)) = text_calls (calls st)"
  by (simp add: ensure_room_def)

lemma drawText_texts [simp]:
  "text_calls (calls (drawText t sz f st)) = text_calls (calls st) @ [(t, sz, f)]"
  by (simp add: drawText_def text_calls_def)













subsection \<open>The characters that the cleaning leaves\<close>















subsection \<open>The lines of a paragraph and of a document\<close>









subsection \<open>Headings\<close>

















section \<open>The request handler: images, formats, validation\<close>

lemma attempted_pages_append [simp]:
  "attempted_pages (xs @ ys) = attempted_pages xs @ attempted_pages ys"
  by (simp add: attempted_pages_def)

lemma attempted_pages_simps [simp]:
  "attempted_pages [] = []"
  "attempted_pages (e # es) = attempted_page e @ attempted_pages es"
  by (simp_all add: attempted_pages_def)

lemma image_step_result:
  "\<exists>c' new. image_step env P base (c, imgs, effs) k =
      (c', imgs @ new,
       effs @ map ImageGeneration (filter (\<lambda>p. of_nat p < P) [base + k])) \<and>
     set (map pageIndex new) \<subseteq> set (filter (\<lambda>p. of_nat p < P) [base + k])"
  by (auto simp: image_step_def Let_def split: option.splits)

lemma inner_loop_result:
  "\<exists>c' new. foldl (image_step env P base) (c, imgs, effs) ks =
      (c', imgs @ new,
       effs @ map ImageGeneration (filter (\<lambda>p. of_nat p < P) (map (\<lambda>k. base + k) ks))) \<and>
     set (map pageIndex new) \<subseteq> set (filter (\<lambda>p. of_nat p < P) (map (\<lambda>k. base + k) ks))"
proof (induction ks arbitrary: c imgs effs)
  case Nil
  then show ?case by simp
next
  case (Cons k ks)
  obtain c1 new1 where s1:
    "image_step env P base (c, imgs, effs) k =
      (c1, imgs @ new1, effs @ map ImageGeneration (filter (\<lambda>p. of_nat p < P) [base + k]))"
    "set (map pageIndex new1) \<subseteq> set (filter (\<lambda>p. of_nat p < P) [base + k])"
    using image_step_result by blast
  obtain c2 new2 where s2:
    "foldl (image_step env P base)
       (c1, imgs @ new1, effs @ map ImageGeneration (filter (\<lambda>p. of_nat p < P) [base + k])) ks =
      (c2, (imgs @ new1) @ new2,
       (effs @ map ImageGeneration (filter (\<lambda>p. of_nat p < P) [base + k])) @
         map ImageGeneration (filter (\<lambda>p. of_nat p < P) (map (\<lambda>k. base + k) ks)))"
    "set (map pageIndex new2) \<subseteq> set (filter (\<lambda>p. of_nat p < P) (map (\<lambda>k. base + k) ks))"
    using Cons.IH by blast
  show ?case
    using s1 s2 by (intro exI [of _ c2] exI [of _ "new1 @ new2"]) auto
qed

lemma outer_loop_result:
  "\<exists>c' new. foldl (group_step env P N M) (c, imgs, effs) gs =
      (c', imgs @ new, effs @ map ImageGeneration (concat (map (group_targets P N M) gs))) \<and>
     set (map pageIndex new) \<subseteq> set (concat (map (group_targets P N M) gs))"
proof (induction gs arbitrary: c imgs effs)
  case Nil
  then show ?case by simp
next
  case (Cons g gs)
  obtain c1 new1 where s1:
    "group_step env P N M (c, imgs, effs) g =
      (c1, imgs @ new1, effs @ map ImageGeneration (group_targets P N M g))"
    "set (map pageIndex new1) \<subseteq> set (group_targets P N M g)"
    using inner_loop_result [of env P "(g + 1) * M - 1" c imgs effs "[0..<N]"]
    by (auto simp: group_step_def group_targets_def Let_def)
  obtain c2 new2 where s2:
    "foldl (group_step env P N M)
       (c1, imgs @ new1, effs @ map ImageGeneration (group_targets P N M g)) gs =
      (c2, (imgs @ new1) @ new2,
       (effs @ map ImageGeneration (group_targets P N M g)) @
         map ImageGeneration (concat (map (group_targets P N M) gs)))"
    "set (map pageIndex new2) \<subseteq> set (concat (map (group_targets P N M) gs))"
    using Cons.IH by blast
  show ?case
    using s1 s2 by (intro exI [of _ c2] exI [of _ "new1 @ new2"]) auto
qed

lemma attempted_pages_map [simp]: "attempted_pages (map ImageGeneration ps) = ps"
  by (induction ps) simp_all

lemma set_group_targets:
  "set (concat (map (group_targets P N M) [0..<G])) =
     {(g + 1) * M - 1 + k | g k. g < G \<and> k < N} \<inter> {p. of_nat p < P}"
proof -
  have m: "p \<in> set (group_targets P N M g) \<longleftrightarrow>
      (\<exists>k. k < N \<and> p = (g + 1) * M - 1 + k) \<and> of_nat p < P" for p g
  proof -
    have "p \<in> set (map (\<lambda>k. (g + 1) * M - 1 + k) [0..<N]) \<longleftrightarrow>
        (\<exists>k. k < N \<and> p = (g + 1) * M - 1 + k)"
      unfolding set_map set_upt image_iff Bex_def atLeastLessThan_iff by blast
    then show ?thesis
      unfolding group_targets_def set_filter mem_Collect_eq by blast
  qed
  have "p \<in> set (concat (map (group_targets P N M) [0..<G])) \<longleftrightarrow>
      p \<in> {(g + 1) * M - 1 + k | g k. g < G \<and> k < N} \<inter> {p. of_nat p < P}" for p
  proof -
    have "p \<in> set (concat (map (group_targets P N M) [0..<G])) \<longleftrightarrow>
        (\<exists>g. g < G \<and> p \<in> set (group_targets P N M g))"
      by auto
    then show ?thesis unfolding m by blast
  qed
  then show ?thesis by blast
qed

lemma generate_images_result:
  assumes "image_frequency_match s = Some (a, b)"
    and "1 \<le> parseInt a" and "1 \<le> parseInt b"
    and "number_of env numPages = Some n"
  shows "\<exists>images effects.
     generate_images env (Some (JStr s)) numPages = (images, effects) \<and>
     set (attempted_pages effects) = target_pages (min n 50) (parseInt a) (parseInt b) \<and>
     pageIndex ` set images \<subseteq> target_pages (min n 50) (parseInt a) (parseInt b) \<and>
     (\<forall>e\<in>set effects. \<exists>p. e = ImageGeneration p)"
proof -
  let ?P = "min n 50" and ?N = "parseInt a" and ?M = "parseInt b"
  let ?G = "nat \<lfloor>?P / of_nat ?M\<rfloor>"
  have s: "s \<noteq> []"
    using assms(1) by (auto simp: match_here_def)
  obtain c' new where r:
    "foldl (group_step env ?P ?N ?M) (0, [], []) [0..<?G] =
      (c', [] @ new, [] @ map ImageGeneration (concat (map (group_targets ?P ?N ?M) [0..<?G])))"
    "set (map pageIndex new) \<subseteq> set (concat (map (group_targets ?P ?N ?M) [0..<?G]))"
    using outer_loop_result by blast
  have g: "generate_images env (Some (JStr s)) numPages =
      (new, map ImageGeneration (concat (map (group_targets ?P ?N ?M) [0..<?G])))"
    using assms s r(1)
    by (simp add: generate_images_def math_min_50_def Let_def)
  show ?thesis
    unfolding g using r(2) set_group_targets [of ?P ?N ?M ?G]
    by (auto simp: target_pages_def)
qed

lemma build_document_effects:
  "build_document env fmt content images = (built, documentEffects) \<Longrightarrow>
     attempted_pages documentEffects = []"
  by (auto simp: build_document_def split: if_splits sum.splits option.splits)

lemma framework_effects_attempted [simp]:
  "attempted_pages (concat (map (framework_effects env) ids)) = []"
  by (induction ids) (auto simp: framework_effects_def split: framework_outcome.splits)

lemma POST_success:
  assumes "POST env request = (Success r, effs)"
  obtains body ids raw images imageEffects documentBuffer mime name documentEffects where
    "request = Some body" "body \<noteq> JNull" "truthy (property body ''prompt'')"
    "property body ''frameworks'' = None \<and> ids = [] \<or>
       property body ''frameworks'' = Some (JArr ids)"
    "contentGeneration env = Some raw"
    "generate_images env (property body ''imageFrequency'') (property body ''numPages'') =
       (images, imageEffects)"
    "build_document env (output_format body) (postProcess env raw) images =
       (Some (documentBuffer, mime, name), documentEffects)"
    "effs = [Embedding, Retrieval] @ concat (map (framework_effects env) ids) @
       [ContentGeneration] @ imageEffects @ documentEffects"
    "resp_document r = toBase64 env documentBuffer" "resp_filename r = name"
    "resp_mimeType r = mime"
    "resp_content r = (if output_format body = JStr (js ''ppt'') then None
                       else Some (postProcess env raw))"
    "resp_numPages r = math_min_50 env (property body ''numPages'')"
    "resp_imagesGenerated r = length images"
proof -
  obtain body where b: "request = Some body" "body \<noteq> JNull"
    "truthy (property body ''prompt'')"
    using assms by (auto simp: POST_def Let_def split: option.splits if_splits)
  define fw where "fw = (case property body ''frameworks'' of None \<Rightarrow> JArr [] | Some v \<Rightarrow> v)"
  have g: "generate env (output_format body) fw (property body ''numPages'')
      (property body ''imageFrequency'') (property body ''writingStyle'') = (Success r, effs)"
    using assms b by (simp add: POST_def Let_def fw_def output_format_def)
  obtain ids where ids: "fw = JArr ids"
    using g by (cases fw) (auto simp: generate_def split: if_splits)
  have fwp: "property body ''frameworks'' = None \<and> ids = [] \<or>
       property body ''frameworks'' = Some (JArr ids)"
    using ids by (auto simp: fw_def split: option.splits)
  obtain raw where raw: "contentGeneration env = Some raw"
    using g ids by (cases "contentGeneration env") (auto simp: generate_def Let_def split: if_splits)
  obtain images imageEffects where gi:
    "generate_images env (property body ''imageFrequency'') (property body ''numPages'') =
       (images, imageEffects)"
    by (cases "generate_images env (property body ''imageFrequency'') (property body ''numPages'')")
  obtain built documentEffects where bd:
    "build_document env (output_format body) (postProcess env raw) images =
       (built, documentEffects)"
    by (cases "build_document env (output_format body) (postProcess env raw) images")
  obtain documentBuffer mime name where built: "built = Some (documentBuffer, mime, name)"
    using g ids raw gi bd
    by (cases built) (auto simp: generate_def Let_def split: if_splits)
  have "effs = [Embedding, Retrieval] @ concat (map (framework_effects env) ids) @
       [ContentGeneration] @ imageEffects @ documentEffects"
    and "resp_document r = toBase64 env documentBuffer" and "resp_filename r = name"
    and "resp_mimeType r = mime"
    and "resp_content r = (if output_format body = JStr (js ''ppt'') then None
                       else Some (postProcess env raw))"
    and "resp_numPages r = math_min_50 env (property body ''numPages'')"
    and "resp_imagesGenerated r = length images"
    using g ids raw gi bd built
    by (auto simp: generate_def Let_def split: if_splits)
  then show ?thesis
    using that [OF b fwp raw gi] bd built by blast
qed




text \<open>
  Claim C8, at the body \<open>null\<close>. The body parses, it has no truthy prompt, and the
  handler answers with status 500 and the error of its outer \<open>catch\<close>, not with status
  400; it has no effect. A body that does not parse is answered with status 400 and
  \<open>Invalid JSON in request body\<close>, without an effect.
\<close>

theorem request_validation:
  "\<not> truthy (property JNull ''prompt'') \<and>
   POST env (Some JNull) = (Failure 500 (js ''Failed to generate whitepaper''), []) \<and>
   POST env None = (Failure 400 (js ''Invalid JSON in request body''), [])"
  by (simp add: POST_def property_def)

lemma prompt_required:
  "body \<noteq> JNull \<Longrightarrow> \<not> truthy (property body ''prompt'') \<Longrightarrow>
     POST env (Some body) = (Failure 400 (js ''Prompt is required''), [])"
  by (simp add: POST_def Let_def)

text \<open>
  Claim C9. When \<open>imageFrequency\<close> matches the pattern with parsed numbers \<open>N\<close> and \<open>M\<close>,
  both at least 1, and \<open>numPages\<close> is the number \<open>n\<close>, then with \<open>P = min n 50\<close> the page
  indices for which an image is requested are exactly the numbers
  \<open>(g + 1) * M - 1 + k\<close> below \<open>P\<close> with \<open>g < floor (P / M)\<close> and \<open>k < N\<close>; every image
  obtained has its \<open>pageIndex\<close> among them; and in a run of the handler that ends with
  the success response the requests made are these and \<open>numPages\<close> of the response is
  \<open>P\<close>.
\<close>

theorem image_targets:
  assumes "image_frequency_match s = Some (a, b)"
    and "1 \<le> parseInt a" and "1 \<le> parseInt b"
    and "number_of env numPages = Some n"
  shows "(\<exists>images effects.
            generate_images env (Some (JStr s)) numPages = (images, effects) \<and>
            set (attempted_pages effects) =
              target_pages (min n 50) (parseInt a) (parseInt b) \<and>
            pageIndex ` set images \<subseteq> target_pages (min n 50) (parseInt a) (parseInt b)) \<and>
         (\<forall>body r effs.
            POST env (Some body) = (Success r, effs) \<and>
            property body ''imageFrequency'' = Some (JStr s) \<and>
            property body ''numPages'' = numPages
            \<longrightarrow> set (attempted_pages effs) =
                  target_pages (min n 50) (parseInt a) (parseInt b) \<and>
                resp_numPages r = Some (min n 50))"
proof -
  obtain images effects where gi:
    "generate_images env (Some (JStr s)) numPages = (images, effects)"
    "set (attempted_pages effects) = target_pages (min n 50) (parseInt a) (parseInt b)"
    "pageIndex ` set images \<subseteq> target_pages (min n 50) (parseInt a) (parseInt b)"
    using generate_images_result [OF assms] by blast
  have "set (attempted_pages effs) = target_pages (min n 50) (parseInt a) (parseInt b) \<and>
        resp_numPages r = Some (min n 50)"
    if "POST env (Some body) = (Success r, effs)"
      and "property body ''imageFrequency'' = Some (JStr s)"
      and "property body ''numPages'' = numPages" for body r effs
  proof -
    from that(1) obtain body' ids raw images' imageEffects documentBuffer mime name
        documentEffects
      where p: "Some body = Some body'"
        "generate_images env (property body' ''imageFrequency'') (property body' ''numPages'') =
           (images', imageEffects)"
        "build_document env (output_format body') (postProcess env raw) images' =
           (Some (documentBuffer, mime, name), documentEffects)"
        "effs = [Embedding, Retrieval] @ concat (map (framework_effects env) ids) @
           [ContentGeneration] @ imageEffects @ documentEffects"
        "resp_numPages r = math_min_50 env (property body' ''numPages'')"
      by (rule POST_success)
    have "imageEffects = effects"
      using p(1,2) that(2,3) gi(1) by simp
    moreover have "attempted_pages documentEffects = []"
      using p(3) by (rule build_document_effects)
    ultimately have "attempted_pages effs = attempted_pages effects"
      using p(4) by simp
    moreover have "resp_numPages r = Some (min n 50)"
      using p(1,5) that(3) assms(4) by (simp add: math_min_50_def)
    ultimately show ?thesis using gi(2) by simp
  qed
  then show ?thesis using gi by blast
qed

theorem image_targets_witness:
  "image_frequency_match (js ''2 images per 2 pages'') = Some (js ''2'', js ''2'') \<and>
   parseInt (js ''2'') = 2 \<and>
   number_of example_services (Some (JNum 5)) = Some 5 \<and>
   target_pages 5 2 2 = {1, 2, 3, 4} \<and>
   (\<exists>r effs. POST example_services (Some (example_request ''docx'')) = (Success r, effs) \<and>
      attempted_pages effs = [1, 2, 3, 4] \<and> resp_numPages r = Some 5 \<and>
      resp_imagesGenerated r = 1)"
proof -
  have m: "image_frequency_match (js ''2 images per 2 pages'') = Some (js ''2'', js ''2'')"
    by code_simp
  have v: "parseInt (js ''2'') = 2" by code_simp
  have n: "number_of example_services (Some (JNum 5)) = Some 5"
    by (simp add: number_of_def)
  have "case fst (POST example_services (Some (example_request ''docx''))) of
      Success r \<Rightarrow> resp_imagesGenerated r = 1 | Failure n e \<Rightarrow> False"
    by code_simp
  then obtain r effs where p:
    "POST example_services (Some (example_request ''docx'')) = (Success r, effs)"
    "resp_imagesGenerated r = 1"
    by (cases "POST example_services (Some (example_request ''docx''))")
       (auto split: response.splits)
  have a: "attempted_pages (snd (POST example_services (Some (example_request ''docx'')))) =
      [1, 2, 3, 4]"
    by code_simp
  have q: "property (example_request ''docx'') ''imageFrequency'' =
      Some (JStr (js ''2 images per 2 pages''))"
    "property (example_request ''docx'') ''numPages'' = Some (JNum 5)"
    by code_simp+
  note t = image_targets [of "js ''2 images per 2 pages''" "js ''2''" "js ''2''"
      example_services "Some (JNum 5)" 5]
  have t1: "set (attempted_pages effs) = target_pages (min 5 50) 2 2 \<and>
      resp_numPages r = Some (min 5 50)"
    using t m v n p(1) q by auto
  have "attempted_pages effs = [1, 2, 3, 4]" using a p(1) by simp
  then show ?thesis
    using t1 m v n p by auto
qed

section \<open>Properties of the download history\<close>

lemma getDownloadedFiles_setItem:
  "setItem STORAGE_KEY v (Some ls) = Inr w' \<Longrightarrow> getDownloadedFiles w' = v"
  by (auto simp: setItem_def getDownloadedFiles_def)

text \<open>
  Claim C10. In a browser (storage \<open>ls\<close>), \<open>saveFileToDownloads\<close> returns the new entry,
  which carries the argument's fields, and afterwards \<open>getDownloadedFiles\<close> returns the
  new entry followed by the previous entries in their order, cut at 50 entries: at most
  50 entries, the new one first. \<open>deleteDownloadedFile\<close> leaves exactly the previous
  entries whose id differs from its argument, in their order.
\<close>

theorem download_history_bounded:
  "\<exists>newFile w'.
     saveFileToDownloads file now stamp (Some ls) = Inr (newFile, w') \<and>
     newFile = FileData.extend file \<lparr>id_field = now, createdAt = stamp\<rparr> \<and>
     getDownloadedFiles w' = take 50 (newFile # getDownloadedFiles (Some ls)) \<and>
     length (getDownloadedFiles w') \<le> 50 \<and>
     getDownloadedFiles w' \<noteq> [] \<and>
     hd (getDownloadedFiles w') = newFile \<and>
     tl (getDownloadedFiles w') = take 49 (getDownloadedFiles (Some ls)) \<and>
     (\<exists>w''. deleteDownloadedFile fileId (Some ls) = Inr w'' \<and>
        getDownloadedFiles w'' =
          filter (\<lambda>f. id_field f \<noteq> fileId) (getDownloadedFiles (Some ls)))"
proof -
  let ?old = "getDownloadedFiles (Some ls)"
  let ?nf = "FileData.extend file \<lparr>id_field = now, createdAt = stamp\<rparr>"
  let ?w = "Some (ls(STORAGE_KEY \<mapsto> take 50 (?nf # ?old)))"
  have save: "saveFileToDownloads file now stamp (Some ls) = Inr (?nf, ?w)"
    by (simp add: saveFileToDownloads_def setItem_def Let_def)
  have get: "getDownloadedFiles ?w = take 50 (?nf # ?old)"
    by (simp add: getDownloadedFiles_def)
  have tk: "take 50 (?nf # ?old) = ?nf # take 49 ?old"
    by (simp add: take_Cons')
  let ?w2 = "Some (ls(STORAGE_KEY \<mapsto> filter (\<lambda>f. id_field f \<noteq> fileId) ?old))"
  have del: "deleteDownloadedFile fileId (Some ls) = Inr ?w2"
    by (simp add: deleteDownloadedFile_def setItem_def Let_def)
  have get2: "getDownloadedFiles ?w2 = filter (\<lambda>f. id_field f \<noteq> fileId) ?old"
    by (simp add: getDownloadedFiles_def)
  show ?thesis
    using save get tk del get2 by simp
qed

end
